theory Spec2Isabelle
  imports Complex_Main "HOL-Library.Word"
begin

section \<open>Data model of compress_image.py\<close>

text \<open>
  The numpy array of an RGB image has shape (height, width, 3) and dtype uint8. It is
  modelled as a list of rows, each row a list of pixels, each pixel the triple of its
  red, green and blue byte. Python floats are modelled as reals: no rounding, no nan,
  no inf.
\<close>

type_synonym u8 = "8 word"
type_synonym pixel = "u8 \<times> u8 \<times> u8"
type_synonym 'a matrix = "'a list list"

text \<open>
  The image \<open>Image.open\<close> returns, by PIL mode. \<open>RGB\<close> has three bands, \<open>L\<close> one
  (greyscale), \<open>RGBA\<close> four (the last is alpha).
\<close>

datatype pil_image =
    ImageRGB "pixel matrix"
  | ImageL "u8 matrix"
  | ImageRGBA "(u8 \<times> u8 \<times> u8 \<times> u8) matrix"

datatype error =
    InvalidShape          \<comment> \<open>an array with no sample or no feature reaches the decomposition\<close>
  | RankOutOfRange        \<comment> \<open>n_components outside 0 .. min(n_samples, n_features)\<close>
  | ShapeMismatch         \<comment> \<open>np.stack on arrays of different shapes\<close>
  | ComputationError      \<comment> \<open>any other failure of the decomposition\<close>

text \<open>What is handed to \<open>img_compressed.save(output_path, 'JPEG', quality=jpeg_quality)\<close>.\<close>

record saved =
  img_compressed :: "pixel matrix"
  jpeg_quality :: int

text \<open>
  \<open>PCA(n_components=k)\<close>, \<open>fit_transform\<close> and \<open>inverse_transform\<close> on one channel are
  calls into a library. The pipeline takes them as one function of the component count and
  the channel, which returns the reconstructed float matrix or raises.
\<close>

type_synonym transformer = "int \<Rightarrow> u8 matrix \<Rightarrow> error + real matrix"

section \<open>Python and numpy primitives\<close>

text \<open>\<open>int(x)\<close> on a float truncates towards zero.\<close>

definition py_int :: "real \<Rightarrow> int" where
  "py_int x = (if 0 \<le> x then floor x else ceiling x)"

text \<open>\<open>np.clip(v, lo, hi)\<close> is \<open>minimum(hi, maximum(v, lo))\<close>.\<close>

definition np_clip :: "real \<Rightarrow> real \<Rightarrow> real \<Rightarrow> real" where
  "np_clip v lo hi = min hi (max v lo)"

text \<open>
  \<open>astype(np.uint8)\<close> on a float: the fraction is dropped (towards zero) and the integer is
  stored in eight bits. Outside 0 .. 255 the model wraps modulo 256.
\<close>

definition astype_uint8 :: "real \<Rightarrow> u8" where
  "astype_uint8 v = word_of_int (py_int v)"

text \<open>The float value of a byte, as the decomposition reads its uint8 input.\<close>

definition to_float :: "u8 \<Rightarrow> real" where
  "to_float w = real (unat w)"

text \<open>\<open>img_array.shape\<close>: the number of rows, and the length of the first row (0 if none).\<close>

definition height_of :: "'a matrix \<Rightarrow> nat" where
  "height_of m = length m"

definition width_of :: "'a matrix \<Rightarrow> nat" where
  "width_of m = (case m of [] \<Rightarrow> 0 | r # _ \<Rightarrow> length r)"


section \<open>Lines 16 to 22: loading and normalising to RGB\<close>

fun mode :: "pil_image \<Rightarrow> string" where
  "mode (ImageRGB _) = ''RGB''"
| "mode (ImageL _) = ''L''"
| "mode (ImageRGBA _) = ''RGBA''"

text \<open>
  \<open>img.convert('RGB')\<close>: a grey value becomes the pixel with that value in each band, an
  RGBA pixel loses its alpha band.
\<close>

fun convert_RGB :: "pil_image \<Rightarrow> pixel matrix" where
  "convert_RGB (ImageRGB p) = p"
| "convert_RGB (ImageL g) = map (map (\<lambda>v. (v, v, v))) g"
| "convert_RGB (ImageRGBA p) = map (map (\<lambda>(r, g, b, a). (r, g, b))) p"

text \<open>
  \<open>if img.mode != 'RGB': img = img.convert('RGB')\<close>, then \<open>np.array(img)\<close>.
\<close>

definition img_array_of :: "pil_image \<Rightarrow> pixel matrix" where
  "img_array_of img =
     (if mode img \<noteq> ''RGB'' then convert_RGB img
      else (case img of ImageRGB p \<Rightarrow> p | _ \<Rightarrow> convert_RGB img))"

section \<open>Lines 30 to 32: the component count\<close>

definition max_components :: "nat \<Rightarrow> nat \<Rightarrow> nat" where
  "max_components height width = min height width"

definition n_components :: "nat \<Rightarrow> nat \<Rightarrow> real \<Rightarrow> int" where
  "n_components height width quality_percentage =
     (let mc = max_components height width;
          n = max 1 (py_int (real mc * quality_percentage / 100))
      in min n (int mc))"




section \<open>Lines 37 to 53: the loop over the channels\<close>

text \<open>\<open>img_array[:, :, channel]\<close> for channel 0 (red), 1 (green), 2 (blue).\<close>

fun band :: "nat \<Rightarrow> pixel \<Rightarrow> u8" where
  "band channel (r, g, b) = (if channel = 0 then r else if channel = 1 then g else b)"

definition channel_data :: "pixel matrix \<Rightarrow> nat \<Rightarrow> u8 matrix" where
  "channel_data img_array channel = map (map (band channel)) img_array"

definition clip_channel :: "real matrix \<Rightarrow> real matrix" where
  "clip_channel channel_reconstructed = map (map (\<lambda>v. np_clip v 0 255)) channel_reconstructed"

text \<open>
  The loop body runs once per channel index, appends the clipped reconstruction to
  \<open>compressed_channels\<close>, and stops at the first channel whose decomposition raises.
\<close>

fun channel_loop ::
  "transformer \<Rightarrow> int \<Rightarrow> pixel matrix \<Rightarrow> nat list \<Rightarrow> real matrix list \<Rightarrow> error + real matrix list"
where
  "channel_loop pca k img_array [] compressed_channels = Inr compressed_channels"
| "channel_loop pca k img_array (channel # rest) compressed_channels =
     (case pca k (channel_data img_array channel) of
        Inl e \<Rightarrow> Inl e
      | Inr channel_reconstructed \<Rightarrow>
          channel_loop pca k img_array rest
            (compressed_channels @ [clip_channel channel_reconstructed]))"

section \<open>Lines 56 to 67: reassembly\<close>

text \<open>
  \<open>np.stack(compressed_channels, axis=2)\<close> raises unless all arrays have one shape. Three
  arrays give the three bands \<open>Image.fromarray(_, 'RGB')\<close> needs.
\<close>

definition stack_rows :: "'a matrix \<Rightarrow> 'a matrix \<Rightarrow> 'a matrix \<Rightarrow> ('a \<times> 'a \<times> 'a) matrix" where
  "stack_rows r g b = map (\<lambda>(rr, rg, rb). zip rr (zip rg rb)) (zip r (zip g b))"

fun np_stack :: "real matrix list \<Rightarrow> error + (real \<times> real \<times> real) matrix" where
  "np_stack [r, g, b] =
     (if map length r = map length g \<and> map length g = map length b
      then Inr (stack_rows r g b) else Inl ShapeMismatch)"
| "np_stack _ = Inl ShapeMismatch"

definition astype_uint8_array :: "(real \<times> real \<times> real) matrix \<Rightarrow> pixel matrix" where
  "astype_uint8_array a =
     map (map (\<lambda>(r, g, b). (astype_uint8 r, astype_uint8 g, astype_uint8 b))) a"

section \<open>compress_image\<close>

definition compress_body :: "transformer \<Rightarrow> pil_image \<Rightarrow> real \<Rightarrow> error + saved" where
  "compress_body pca img quality_percentage =
     (let img_array = img_array_of img;
          height = height_of img_array;
          width = width_of img_array;
          k = n_components height width quality_percentage
      in case channel_loop pca k img_array [0, 1, 2] [] of
           Inl e \<Rightarrow> Inl e
         | Inr compressed_channels \<Rightarrow>
             (case np_stack compressed_channels of
                Inl e \<Rightarrow> Inl e
              | Inr img_compressed_array \<Rightarrow>
                  Inr \<lparr>img_compressed = astype_uint8_array img_compressed_array,
                       jpeg_quality = max 10 (min 95 (py_int quality_percentage))\<rparr>))"

text \<open>
  Lines 14 and 72 to 74: the body runs inside \<open>try\<close>, and the handler prints the exception
  and raises the same exception again. The printing is not modelled.
\<close>

definition compress_image :: "transformer \<Rightarrow> pil_image \<Rightarrow> real \<Rightarrow> error + saved" where
  "compress_image pca img quality_percentage =
     (case compress_body pca img quality_percentage of
        Inl e \<Rightarrow> Inl e
      | Inr s \<Rightarrow> Inr s)"

section \<open>The decomposition\<close>

text \<open>
  Modelled from the spec: the rank reduction itself, \<open>PCA.fit_transform\<close> followed by
  \<open>PCA.inverse_transform\<close>, is not in the source files. The specification gives it as:
  centre the matrix by subtracting the feature (column) means; compute the top k principal
  directions; project each row onto those directions; invert the projection to come back to
  the original value space. It names two error conditions: a zero-sized dimension, and a
  component count beyond the attainable rank min(H, W). The numerical computation of the
  directions is left open: \<open>directions k Xc\<close> is any function that returns k vectors
  of as many entries as the matrix has columns.
\<close>

definition feature_means :: "real matrix \<Rightarrow> real list" where
  "feature_means X =
     map (\<lambda>j. sum_list (map (\<lambda>r. r ! j) X) / real (length X)) [0..<width_of X]"

definition center :: "real list \<Rightarrow> real matrix \<Rightarrow> real matrix" where
  "center mu X = map (\<lambda>r. map2 (-) r mu) X"

definition dot :: "real list \<Rightarrow> real list \<Rightarrow> real" where
  "dot u v = sum_list (map2 (*) u v)"

definition project :: "real matrix \<Rightarrow> real list \<Rightarrow> real list" where
  "project V r = map (dot r) V"

definition unproject :: "real matrix \<Rightarrow> real list \<Rightarrow> real list \<Rightarrow> real list" where
  "unproject V mu coeffs =
     map (\<lambda>j. sum_list (map2 (\<lambda>c v. c * v ! j) coeffs V) + mu ! j) [0..<length mu]"

definition pca_transformer :: "(nat \<Rightarrow> real matrix \<Rightarrow> real matrix) \<Rightarrow> transformer" where
  "pca_transformer directions k channel =
     (let X = map (map to_float) channel;
          H = height_of X;
          W = width_of X
      in if H = 0 \<or> W = 0 then Inl InvalidShape
         else if k < 0 \<or> int (min H W) < k then Inl RankOutOfRange
         else (let mu = feature_means X;
                   Xc = center mu X;
                   V = directions (nat k) Xc
               in Inr (map (\<lambda>r. unproject V mu (project V r)) Xc)))"

text \<open>A concrete choice of directions: the first k coordinate axes.\<close>

definition axis_directions :: "nat \<Rightarrow> real matrix \<Rightarrow> real matrix" where
  "axis_directions k Xc =
     map (\<lambda>i. map (\<lambda>j. if i = j then 1 else 0) [0..<width_of Xc]) [0..<k]"

section \<open>Derived notions used in the statements\<close>

text \<open>
  The byte stored for a reconstructed value: clipped on line 51, cast on line 59.
\<close>

definition stored_value :: "real \<Rightarrow> u8" where
  "stored_value v = astype_uint8 (np_clip v 0 255)"

text \<open>Lines 56 to 59 on the three reconstructions: clip, stack, cast.\<close>

definition reassemble :: "real matrix \<Rightarrow> real matrix \<Rightarrow> real matrix \<Rightarrow> pixel matrix" where
  "reassemble R G B =
     astype_uint8_array (stack_rows (clip_channel R) (clip_channel G) (clip_channel B))"

section \<open>The component count selector\<close>





section \<open>Clipping and casting\<close>

lemma np_clip_range: "0 \<le> np_clip v 0 255 \<and> np_clip v 0 255 \<le> 255"
  by (simp add: np_clip_def)

lemma py_int_nonneg: "0 \<le> x \<Longrightarrow> py_int x = floor x"
  by (simp add: py_int_def)

lemma uint_stored_value: "uint (stored_value v) = floor (np_clip v 0 255)"
proof -
  let ?c = "np_clip v 0 255"
  have r: "0 \<le> ?c" "?c \<le> 255" using np_clip_range [of v] by simp_all
  have lo: "0 \<le> floor ?c" using r by simp
  have "floor ?c \<le> 255" using r by (simp add: floor_le_iff)
  then have hi: "floor ?c < 2 ^ LENGTH(8)" by simp
  have "uint (word_of_int (floor ?c) :: u8) = floor ?c"
    using lo hi by (simp add: uint_word_of_int_eq take_bit_int_eq_self)
  then show ?thesis using r by (simp add: stored_value_def astype_uint8_def py_int_nonneg)
qed


section \<open>The loop and the stack\<close>

lemma channel_loop_rgb:
  "channel_loop pca k a [0, 1, 2] [] =
     (case pca k (channel_data a 0) of Inl e \<Rightarrow> Inl e | Inr R \<Rightarrow>
      (case pca k (channel_data a 1) of Inl e \<Rightarrow> Inl e | Inr G \<Rightarrow>
       (case pca k (channel_data a 2) of Inl e \<Rightarrow> Inl e | Inr B \<Rightarrow>
          Inr [clip_channel R, clip_channel G, clip_channel B])))"
  by (simp split: sum.splits)

lemma stack_rows_Cons:
  "stack_rows (x # r) (y # g) (z # b) = zip x (zip y z) # stack_rows r g b"
  by (simp add: stack_rows_def)

lemma stack_rows_bands:
  "map length r = map length g \<Longrightarrow> map length g = map length b \<Longrightarrow>
     map (map fst) (stack_rows r g b) = r
   \<and> map (map (\<lambda>p. fst (snd p))) (stack_rows r g b) = g
   \<and> map (map (\<lambda>p. snd (snd p))) (stack_rows r g b) = b"
proof (induction r arbitrary: g b)
  case Nil
  then show ?case by (simp add: stack_rows_def)
next
  case (Cons x r)
  then obtain y g' where g: "g = y # g'" by (cases g) auto
  with Cons.prems obtain z b' where b: "b = z # b'" by (cases b) auto
  have len: "length x = length y" "length y = length z"
    using Cons.prems g b by simp_all
  have tl: "map length r = map length g'" "map length g' = map length b'"
    using Cons.prems g b by simp_all
  have row: "map fst (zip x (zip y z)) = x"
    "map (\<lambda>p. fst (snd p)) (zip x (zip y z)) = y"
    "map (\<lambda>p. snd (snd p)) (zip x (zip y z)) = z"
    using len by (simp_all add: map_fst_zip map_snd_zip flip: map_map comp_def [of fst snd] comp_def [of snd snd])
  show ?case using Cons.IH [OF tl] row by (simp add: g b stack_rows_Cons)
qed

section \<open>The whole pipeline\<close>

lemma band_simps:
  "band 0 p = fst p" "band (Suc 0) p = fst (snd p)" "band 2 p = snd (snd p)"
  by (cases p; simp)+

lemma length_clip_channel: "map length (clip_channel R) = map length R"
  by (simp add: clip_channel_def)

lemma compress_image_eq:
  "compress_image pca img q =
     (let a = img_array_of img; k = n_components (height_of a) (width_of a) q in
      case pca k (channel_data a 0) of Inl e \<Rightarrow> Inl e | Inr R \<Rightarrow>
      (case pca k (channel_data a 1) of Inl e \<Rightarrow> Inl e | Inr G \<Rightarrow>
       (case pca k (channel_data a 2) of Inl e \<Rightarrow> Inl e | Inr B \<Rightarrow>
          if map length R = map length G \<and> map length G = map length B
          then Inr \<lparr>img_compressed = reassemble R G B,
                    jpeg_quality = max 10 (min 95 (py_int q))\<rparr>
          else Inl ShapeMismatch)))"
  by (simp add: compress_image_def compress_body_def Let_def reassemble_def length_clip_channel
      split: sum.splits)

lemma compress_image_InrD:
  assumes "compress_image pca img q = Inr s"
  defines "a \<equiv> img_array_of img"
  defines "k \<equiv> n_components (height_of a) (width_of a) q"
  shows "\<exists>R G B. pca k (channel_data a 0) = Inr R \<and> pca k (channel_data a 1) = Inr G
           \<and> pca k (channel_data a 2) = Inr B
           \<and> map length R = map length G \<and> map length G = map length B
           \<and> s = \<lparr>img_compressed = reassemble R G B, jpeg_quality = max 10 (min 95 (py_int q))\<rparr>"
  using assms(1) unfolding compress_image_eq a_def k_def Let_def
  by (auto split: sum.splits if_splits)

lemma stored_clip: "map (map astype_uint8) (clip_channel R) = map (map stored_value) R"
  by (simp add: clip_channel_def stored_value_def comp_def)

lemma channel_data_reassemble:
  assumes "map length R = map length G" and "map length G = map length B"
  shows "channel_data (reassemble R G B) 0 = map (map stored_value) R
       \<and> channel_data (reassemble R G B) 1 = map (map stored_value) G
       \<and> channel_data (reassemble R G B) 2 = map (map stored_value) B"
proof -
  let ?S = "stack_rows (clip_channel R) (clip_channel G) (clip_channel B)"
  have l: "map length (clip_channel R) = map length (clip_channel G)"
    "map length (clip_channel G) = map length (clip_channel B)"
    using assms by (simp_all add: length_clip_channel)
  note sb = stack_rows_bands [OF l]
  have "channel_data (reassemble R G B) 0 = map (map astype_uint8) (map (map fst) ?S)"
    by (simp add: channel_data_def reassemble_def astype_uint8_array_def comp_def split_beta)
  then have r: "channel_data (reassemble R G B) 0 = map (map stored_value) R"
    by (simp only: sb stored_clip)
  have "channel_data (reassemble R G B) 1 = map (map astype_uint8) (map (map (\<lambda>p. fst (snd p))) ?S)"
    by (simp add: channel_data_def reassemble_def astype_uint8_array_def comp_def split_beta)
  then have g: "channel_data (reassemble R G B) 1 = map (map stored_value) G"
    by (simp only: sb stored_clip)
  have "channel_data (reassemble R G B) 2 = map (map astype_uint8) (map (map (\<lambda>p. snd (snd p))) ?S)"
    by (simp add: channel_data_def reassemble_def astype_uint8_array_def comp_def split_beta)
  then have b: "channel_data (reassemble R G B) 2 = map (map stored_value) B"
    by (simp only: sb stored_clip)
  from r g b show ?thesis by blast
qed

lemma map_length_reassemble:
  assumes "map length R = map length G" and "map length G = map length B"
  shows "map length (reassemble R G B) = map length R"
proof -
  have "map length (channel_data (reassemble R G B) 0) = map length (map (map stored_value) R)"
    using channel_data_reassemble [OF assms] by simp
  then show ?thesis by (simp add: channel_data_def comp_def)
qed

lemma stored_value_floor: "stored_value v = word_of_int (floor (np_clip v 0 255))"
  using np_clip_range [of v] by (simp add: stored_value_def astype_uint8_def py_int_nonneg)

lemma uint_stored_value_sat:
  "uint (stored_value v) = (if v \<le> 0 then 0 else if 255 \<le> v then 255 else floor v)"
  by (simp add: uint_stored_value np_clip_def min_def max_def)

lemma less_3_cases: "c < (3::nat) \<Longrightarrow> c = 0 \<or> c = 1 \<or> c = 2"
  by arith

lemma compressed_channel:
  assumes "compress_image pca img q = Inr s" and "c < 3"
  shows "\<exists>R. pca (n_components (height_of (img_array_of img)) (width_of (img_array_of img)) q)
               (channel_data (img_array_of img) c) = Inr R
           \<and> channel_data (img_compressed s) c = map (map stored_value) R"
proof -
  from compress_image_InrD [OF assms(1)] obtain R G B where
    p: "pca (n_components (height_of (img_array_of img)) (width_of (img_array_of img)) q)
          (channel_data (img_array_of img) 0) = Inr R"
       "pca (n_components (height_of (img_array_of img)) (width_of (img_array_of img)) q)
          (channel_data (img_array_of img) 1) = Inr G"
       "pca (n_components (height_of (img_array_of img)) (width_of (img_array_of img)) q)
          (channel_data (img_array_of img) 2) = Inr B"
    and l: "map length R = map length G" "map length G = map length B"
    and s: "s = \<lparr>img_compressed = reassemble R G B, jpeg_quality = max 10 (min 95 (py_int q))\<rparr>"
    by blast
  note ch = channel_data_reassemble [OF l]
  from less_3_cases [OF assms(2)] show ?thesis
  proof (elim disjE)
    assume "c = 0" then show ?thesis using p(1) ch by (simp add: s)
  next
    assume "c = 1" then show ?thesis using p(2) ch by (simp add: s)
  next
    assume "c = 2" then show ?thesis using p(3) ch by (simp add: s)
  qed
qed


section \<open>Properties of the modelled decomposition\<close>

















lemma channel_data_lengths: "map length (channel_data a c) = map length a"
  by (simp add: channel_data_def)





lemma compress_image_body: "compress_image pca img q = compress_body pca img q"
  by (simp add: compress_image_def split: sum.splits)




section \<open>Properties of compress_image\<close>

text \<open>
  C2. Whenever compress_image returns an image, each band of the result is the decomposition's
  reconstruction of that band with every value clipped to the range from 0 to 255 and then cast
  to a byte. The stored byte is 0 for a value of 0 or less, 255 for a value of 255 or more, and
  the integer part otherwise: it is saturated, never wrapped modulo 256 and never rescaled, and
  always lies between 0 and 255.
\<close>

theorem output_values_clipped:
  assumes "compress_image pca img q = Inr s"
  shows "(\<forall>c<3. \<exists>R. pca (n_components (height_of (img_array_of img)) (width_of (img_array_of img)) q)
               (channel_data (img_array_of img) c) = Inr R
           \<and> channel_data (img_compressed s) c = map (map (\<lambda>v. astype_uint8 (np_clip v 0 255))) R)
       \<and> (\<forall>v. uint (astype_uint8 (np_clip v 0 255)) =
                 (if v \<le> 0 then 0 else if 255 \<le> v then 255 else floor v)
              \<and> 0 \<le> uint (astype_uint8 (np_clip v 0 255))
              \<and> uint (astype_uint8 (np_clip v 0 255)) \<le> 255)"
proof -
  have a: "\<forall>c<3. \<exists>R. pca (n_components (height_of (img_array_of img)) (width_of (img_array_of img)) q)
               (channel_data (img_array_of img) c) = Inr R
           \<and> channel_data (img_compressed s) c = map (map (\<lambda>v. astype_uint8 (np_clip v 0 255))) R"
    using compressed_channel [OF assms] by (simp add: stored_value_def [abs_def])
  have b: "uint (astype_uint8 (np_clip v 0 255)) =
                 (if v \<le> 0 then 0 else if 255 \<le> v then 255 else floor v)" for v
    using uint_stored_value_sat [of v] by (simp add: stored_value_def)
  have c: "0 \<le> uint (astype_uint8 (np_clip v 0 255))
              \<and> uint (astype_uint8 (np_clip v 0 255)) \<le> 255" for v
    using uint_stored_value [of v] np_clip_range [of v]
    by (simp add: stored_value_def floor_le_iff)
  from a b c show ?thesis by blast
qed

theorem output_values_clipped_witness:
  "compress_image (\<lambda>k M. Inr (map (map (\<lambda>w. 3 * to_float w - 100)) M))
       (ImageRGB [[(10, 100, 200)]]) 50
     = Inr \<lparr>img_compressed = [[(0, 200, 255)]], jpeg_quality = 50\<rparr>
   \<and> channel_data (img_compressed \<lparr>img_compressed = [[(0, 200, 255)]], jpeg_quality = 50\<rparr>) 2
       = [[255]]
   \<and> uint (astype_uint8 (np_clip 500 0 255)) = 255
   \<and> uint (astype_uint8 (np_clip (- 70) 0 255)) = 0
   \<and> astype_uint8 500 = 244"
proof -
  have e: "compress_image (\<lambda>k M. Inr (map (map (\<lambda>w. 3 * to_float w - 100)) M))
       (ImageRGB [[(10, 100, 200)]]) 50
     = Inr \<lparr>img_compressed = [[(0, 200, 255)]], jpeg_quality = 50\<rparr>"
    by code_simp
  note t = output_values_clipped [OF e]
  have c: "channel_data (img_compressed \<lparr>img_compressed = [[(0, 200, 255)]], jpeg_quality = 50\<rparr>) 2
       = [[255]]"
    by (simp add: channel_data_def)
  have hi: "uint (astype_uint8 (np_clip 500 0 255)) = 255"
    using t by simp
  have lo: "uint (astype_uint8 (np_clip (- 70) 0 255)) = 0"
    using t by simp
  have w: "astype_uint8 500 = 244"
    by (simp add: astype_uint8_def py_int_def)
  from e c hi lo w show ?thesis by blast
qed

text \<open>
  C10. The cast to eight bits drops the fraction: whenever compress_image returns an image,
  each stored byte of band c is the floor of the clipped reconstructed value, so 254.9 is
  stored as 254.
\<close>

theorem quantization_is_floor:
  assumes "compress_image pca img q = Inr s" and "c < 3"
  shows "(\<exists>R. pca (n_components (height_of (img_array_of img)) (width_of (img_array_of img)) q)
               (channel_data (img_array_of img) c) = Inr R
           \<and> channel_data (img_compressed s) c
               = map (map (\<lambda>v. word_of_int (floor (np_clip v 0 255)))) R)
       \<and> astype_uint8 (np_clip (2549 / 10) 0 255) = 254"
proof -
  have "astype_uint8 (np_clip (2549 / 10) 0 255) = 254"
    by (simp add: astype_uint8_def np_clip_def py_int_def)
  then show ?thesis
    using compressed_channel [OF assms] by (simp add: stored_value_floor [abs_def])
qed

theorem quantization_is_floor_witness:
  "compress_image (\<lambda>k M. Inr (map (map (\<lambda>w. to_float w + 9 / 10)) M))
       (ImageRGB [[(254, 0, 255)]]) 50
     = Inr \<lparr>img_compressed = [[(254, 0, 255)]], jpeg_quality = 50\<rparr>
   \<and> (0::nat) < 3
   \<and> astype_uint8 (np_clip (2549 / 10) 0 255) = 254"
proof -
  have e: "compress_image (\<lambda>k M. Inr (map (map (\<lambda>w. to_float w + 9 / 10)) M))
       (ImageRGB [[(254, 0, 255)]]) 50
     = Inr \<lparr>img_compressed = [[(254, 0, 255)]], jpeg_quality = 50\<rparr>"
    by code_simp
  have c: "(0::nat) < 3" by simp
  from quantization_is_floor [OF e c] e c show ?thesis by blast
qed









text \<open>
  C6. compress_image is all or nothing. If the decomposition of a channel raises, the first
  such error is the result; if the three reconstructions do not stack, the stacking error is the
  result; and if an image is returned, all three decompositions succeeded and every band of
  the image is the complete stored reconstruction of its channel. The handler of lines 72 to 74
  raises the very error the body raised: compress_image and its body have the same result.
\<close>

theorem all_or_nothing:
  fixes pca :: transformer and img :: pil_image and q :: real
  defines "a \<equiv> img_array_of img"
  defines "k \<equiv> n_components (height_of a) (width_of a) q"
  shows "(\<forall>e. pca k (channel_data a 0) = Inl e \<longrightarrow> compress_image pca img q = Inl e)
     \<and> (\<forall>R e. pca k (channel_data a 0) = Inr R \<and> pca k (channel_data a 1) = Inl e
            \<longrightarrow> compress_image pca img q = Inl e)
     \<and> (\<forall>R G e. pca k (channel_data a 0) = Inr R \<and> pca k (channel_data a 1) = Inr G
              \<and> pca k (channel_data a 2) = Inl e
            \<longrightarrow> compress_image pca img q = Inl e)
     \<and> (\<forall>R G B. pca k (channel_data a 0) = Inr R \<and> pca k (channel_data a 1) = Inr G
              \<and> pca k (channel_data a 2) = Inr B
              \<and> \<not> (map length R = map length G \<and> map length G = map length B)
            \<longrightarrow> compress_image pca img q = Inl ShapeMismatch)
     \<and> (\<forall>s. compress_image pca img q = Inr s \<longrightarrow>
           (\<exists>R G B. pca k (channel_data a 0) = Inr R \<and> pca k (channel_data a 1) = Inr G
              \<and> pca k (channel_data a 2) = Inr B
              \<and> map length (img_compressed s) = map length R
              \<and> channel_data (img_compressed s) 0 = map (map stored_value) R
              \<and> channel_data (img_compressed s) 1 = map (map stored_value) G
              \<and> channel_data (img_compressed s) 2 = map (map stored_value) B))
     \<and> compress_image pca img q = compress_body pca img q"
proof -
  have eq: "compress_image pca img q =
      (case pca k (channel_data a 0) of Inl e \<Rightarrow> Inl e | Inr R \<Rightarrow>
      (case pca k (channel_data a 1) of Inl e \<Rightarrow> Inl e | Inr G \<Rightarrow>
       (case pca k (channel_data a 2) of Inl e \<Rightarrow> Inl e | Inr B \<Rightarrow>
          if map length R = map length G \<and> map length G = map length B
          then Inr \<lparr>img_compressed = reassemble R G B,
                    jpeg_quality = max 10 (min 95 (py_int q))\<rparr>
          else Inl ShapeMismatch)))"
    unfolding compress_image_eq Let_def a_def k_def ..
  have f0: "\<forall>e. pca k (channel_data a 0) = Inl e \<longrightarrow> compress_image pca img q = Inl e"
    by (simp add: eq)
  have f1: "\<forall>R e. pca k (channel_data a 0) = Inr R \<and> pca k (channel_data a 1) = Inl e
            \<longrightarrow> compress_image pca img q = Inl e"
    by (simp add: eq)
  have f2: "\<forall>R G e. pca k (channel_data a 0) = Inr R \<and> pca k (channel_data a 1) = Inr G
              \<and> pca k (channel_data a 2) = Inl e
            \<longrightarrow> compress_image pca img q = Inl e"
    by (simp add: eq)
  have f3: "\<forall>R G B. pca k (channel_data a 0) = Inr R \<and> pca k (channel_data a 1) = Inr G
              \<and> pca k (channel_data a 2) = Inr B
              \<and> \<not> (map length R = map length G \<and> map length G = map length B)
            \<longrightarrow> compress_image pca img q = Inl ShapeMismatch"
    by (auto simp: eq)
  have ok: "\<forall>s. compress_image pca img q = Inr s \<longrightarrow>
           (\<exists>R G B. pca k (channel_data a 0) = Inr R \<and> pca k (channel_data a 1) = Inr G
              \<and> pca k (channel_data a 2) = Inr B
              \<and> map length (img_compressed s) = map length R
              \<and> channel_data (img_compressed s) 0 = map (map stored_value) R
              \<and> channel_data (img_compressed s) 1 = map (map stored_value) G
              \<and> channel_data (img_compressed s) 2 = map (map stored_value) B)"
  proof (intro allI impI)
    fix s assume "compress_image pca img q = Inr s"
    from compress_image_InrD [OF this] obtain R G B where
      p: "pca k (channel_data a 0) = Inr R" "pca k (channel_data a 1) = Inr G"
         "pca k (channel_data a 2) = Inr B"
      and l: "map length R = map length G" "map length G = map length B"
      and s: "s = \<lparr>img_compressed = reassemble R G B, jpeg_quality = max 10 (min 95 (py_int q))\<rparr>"
      unfolding a_def k_def by blast
    have "map length (img_compressed s) = map length R"
      using map_length_reassemble [OF l] by (simp add: s)
    moreover have "channel_data (img_compressed s) 0 = map (map stored_value) R
       \<and> channel_data (img_compressed s) 1 = map (map stored_value) G
       \<and> channel_data (img_compressed s) 2 = map (map stored_value) B"
      using channel_data_reassemble [OF l] by (simp add: s)
    ultimately show "\<exists>R G B. pca k (channel_data a 0) = Inr R \<and> pca k (channel_data a 1) = Inr G
              \<and> pca k (channel_data a 2) = Inr B
              \<and> map length (img_compressed s) = map length R
              \<and> channel_data (img_compressed s) 0 = map (map stored_value) R
              \<and> channel_data (img_compressed s) 1 = map (map stored_value) G
              \<and> channel_data (img_compressed s) 2 = map (map stored_value) B"
      using p by blast
  qed
  from f0 f1 f2 f3 ok compress_image_body [of pca img q] show ?thesis by blast
qed

theorem all_or_nothing_witness:
  "compress_image (pca_transformer axis_directions) (ImageRGB []) 50 = Inl InvalidShape
   \<and> compress_image (\<lambda>k M. if M = [[20]] then Inl ComputationError else Inr (map (map to_float) M))
         (ImageRGB [[(10, 20, 30)]]) 50 = Inl ComputationError
   \<and> compress_image (pca_transformer axis_directions) (ImageRGB [[(10, 20, 30)]]) 50
       = compress_body (pca_transformer axis_directions) (ImageRGB [[(10, 20, 30)]]) 50"
proof -
  let ?f = "\<lambda>(k::int) (M::u8 matrix).
     if M = [[20]] then Inl ComputationError else Inr (map (map to_float) M)"
  have p0: "pca_transformer axis_directions
        (n_components (height_of (img_array_of (ImageRGB []))) (width_of (img_array_of (ImageRGB []))) 50)
        (channel_data (img_array_of (ImageRGB [])) 0) = Inl InvalidShape"
    by code_simp
  have a: "compress_image (pca_transformer axis_directions) (ImageRGB []) 50 = Inl InvalidShape"
    using all_or_nothing [of "pca_transformer axis_directions" "ImageRGB []" 50] p0 by blast
  let ?img = "ImageRGB [[(10, 20, 30)]]"
  have p1: "?f (n_components (height_of (img_array_of ?img)) (width_of (img_array_of ?img)) 50)
        (channel_data (img_array_of ?img) 0) = Inr [[10]]"
    by code_simp
  have p2: "?f (n_components (height_of (img_array_of ?img)) (width_of (img_array_of ?img)) 50)
        (channel_data (img_array_of ?img) 1) = Inl ComputationError"
    by code_simp
  have b: "compress_image ?f ?img 50 = Inl ComputationError"
    using all_or_nothing [of ?f ?img 50] p1 p2 by blast
  have c: "compress_image (pca_transformer axis_directions) ?img 50
       = compress_body (pca_transformer axis_directions) ?img 50"
    using all_or_nothing [of "pca_transformer axis_directions" ?img 50] by blast
  from a b c show ?thesis by blast
qed




end
